theory Spec2Isabelle
  imports Main "HOL-Library.Sublist" "HOL-Library.Signed_Division"
begin

section \<open>Pushpin proxy: supervisor configuration and control requests\<close>

text \<open>
  A shallow embedding of the parts of \<^verbatim>\<open>src/proxy/app.cpp\<close>,
  \<^verbatim>\<open>src/handler/controlrequest.cpp\<close> and the updater that the verified
  properties are about. A \<^verbatim>\<open>QString\<close> and a \<^verbatim>\<open>QByteArray\<close> are
  \<^typ>\<open>string\<close>, a \<^verbatim>\<open>QStringList\<close> is a \<^typ>\<open>string list\<close>, a C++
  \<^verbatim>\<open>int\<close> is an \<^typ>\<open>int\<close> whose value is taken to stay in the 32-bit range.
\<close>

subsection \<open>trimlist\<close>





subsection \<open>Numbers as text\<close>

text \<open>
  \<^verbatim>\<open>QString::number(int)\<close>, \<^verbatim>\<open>QByteArray::number(int)\<close> and
  \<^verbatim>\<open>QString("-%1").arg(int)\<close> print an \<^verbatim>\<open>int\<close> in decimal, with a leading
  minus sign for a negative value.
\<close>

definition digit :: "nat \<Rightarrow> char" where
  "digit d = ''0123456789'' ! d"

fun number_nat :: "nat \<Rightarrow> string" where
  "number_nat n = (if n < 10 then [digit n] else number_nat (n div 10) @ [digit (n mod 10)])"

declare number_nat.simps [simp del]

definition number :: "int \<Rightarrow> string" where
  "number i = (if i < 0 then CHR ''-'' # number_nat (nat (- i)) else number_nat (nat i))"

subsection \<open>suffixSpec and suffixSpecs\<close>

text \<open>\<^verbatim>\<open>QString::startsWith\<close> is \<^const>\<open>prefix\<close> on the characters.\<close>

definition suffixSpec :: "string \<Rightarrow> int \<Rightarrow> string" where
  "suffixSpec s i = (if prefix ''ipc:'' s then s @ (''-'' @ number i) else s)"

definition suffixSpecs :: "string list \<Rightarrow> int \<Rightarrow> string list" where
  "suffixSpecs l i =
     (if length l = 1 \<and> prefix ''ipc:'' (l ! 0) then [l ! 0 @ (''-'' @ number i)] else l)"

subsection \<open>Settings and the engine configuration\<close>

text \<open>
  The \<^verbatim>\<open>Settings\<close> class is not part of the sources at hand. A settings file is
  taken as what its lookups return after conversion: for a key that is set,
  \<open>intSetting\<close> is the result of \<^verbatim>\<open>value(key).toInt()\<close>, \<open>listSetting\<close> of
  \<^verbatim>\<open>value(key).toStringList()\<close> and \<open>stringSetting\<close> of
  \<^verbatim>\<open>value(key).toString()\<close>; a key that is not set gives the default of the call.
\<close>

record settings =
  intSetting :: "string \<rightharpoonup> int"
  listSetting :: "string \<rightharpoonup> string list"
  stringSetting :: "string \<rightharpoonup> string"

definition value_toInt :: "settings \<Rightarrow> string \<Rightarrow> int \<Rightarrow> int" where
  "value_toInt st key dflt = (case intSetting st key of None \<Rightarrow> dflt | Some v \<Rightarrow> v)"



text \<open>
  \<^verbatim>\<open>Engine::Configuration\<close>, with the fields that \<^verbatim>\<open>App::Private::run\<close> and
  \<^verbatim>\<open>runLoop\<close> compute from endpoint specs, the session limit and the worker index.
  The remaining fields are copied from the settings unchanged and play no part below.
\<close>

record Configuration =
  config_id :: int
  clientId :: string
  serverInSpecs :: "string list"
  serverInStreamSpecs :: "string list"
  serverOutSpecs :: "string list"
  clientOutSpecs :: "string list"
  clientOutStreamSpecs :: "string list"
  clientInSpecs :: "string list"
  inspectSpec :: string
  acceptSpec :: string
  retryInSpec :: string
  wsControlInitSpecs :: "string list"
  wsControlStreamSpecs :: "string list"
  statsSpec :: string
  commandSpec :: string
  intServerInSpecs :: "string list"
  intServerInStreamSpecs :: "string list"
  intServerOutSpecs :: "string list"
  sessionsMax :: int


text \<open>
  The effective total session limit (\<^verbatim>\<open>// sessionsMax should not exceed clientMaxconn\<close>).
\<close>

definition totalSessionsMax :: "settings \<Rightarrow> int" where
  "totalSessionsMax st =
     (let sessionsMax = value_toInt st ''proxy/max_open_requests'' (- 1);
          clientMaxconn = value_toInt st ''runner/client_maxconn'' 50000
      in if sessionsMax \<ge> 0 then min sessionsMax clientMaxconn else clientMaxconn)"




















subsection \<open>The configuration of worker n\<close>

text \<open>
  The body of the loop \<^verbatim>\<open>for(int n = 0; n < workerCount; ++n)\<close> of \<^verbatim>\<open>runLoop\<close>
  up to the construction of the \<^verbatim>\<open>EngineThread\<close>.
\<close>

definition workerConfig :: "Configuration \<Rightarrow> int \<Rightarrow> int \<Rightarrow> Configuration" where
  "workerConfig config wcount n =
     (let wconfig = config\<lparr> config_id := n \<rparr> in
      if wcount > 1 then
        wconfig\<lparr>
          clientId := clientId wconfig @ (''-'' @ number n),
          inspectSpec := suffixSpec (inspectSpec wconfig) n,
          acceptSpec := suffixSpec (acceptSpec wconfig) n,
          retryInSpec := suffixSpec (retryInSpec wconfig) n,
          wsControlInitSpecs := suffixSpecs (wsControlInitSpecs wconfig) n,
          wsControlStreamSpecs := suffixSpecs (wsControlStreamSpecs wconfig) n,
          statsSpec := suffixSpec (statsSpec wconfig) n,
          commandSpec := suffixSpec (commandSpec wconfig) n,
          intServerInSpecs := suffixSpecs (intServerInSpecs wconfig) n,
          intServerInStreamSpecs := suffixSpecs (intServerInStreamSpecs wconfig) n,
          intServerOutSpecs := suffixSpecs (intServerOutSpecs wconfig) n \<rparr>
      else wconfig)"


text \<open>
  The endpoint specs of a configuration, grouped by how \<^verbatim>\<open>runLoop\<close> treats them:
  the single-valued specs passed through \<^verbatim>\<open>suffixSpec\<close>, the list-valued specs passed
  through \<^verbatim>\<open>suffixSpecs\<close>, and the connection manager's lists, which the loop
  does not touch.
\<close>

definition singleSpecs :: "Configuration \<Rightarrow> string list" where
  "singleSpecs c = [inspectSpec c, acceptSpec c, retryInSpec c, statsSpec c, commandSpec c]"

definition listSpecs :: "Configuration \<Rightarrow> string list list" where
  "listSpecs c =
     [wsControlInitSpecs c, wsControlStreamSpecs c,
      intServerInSpecs c, intServerInStreamSpecs c, intServerOutSpecs c]"

definition connmgrSpecs :: "Configuration \<Rightarrow> string list list" where
  "connmgrSpecs c =
     [serverInSpecs c, serverInStreamSpecs c, serverOutSpecs c,
      clientOutSpecs c, clientOutStreamSpecs c, clientInSpecs c]"

subsection \<open>Example settings\<close>

text \<open>
  Settings with the six connection manager lists set to one IPC endpoint each, which
  pass both checks of \<^verbatim>\<open>run\<close>, and the given integer settings.
\<close>

definition settingsOf :: "(string \<times> int) list \<Rightarrow> (string \<times> string list) list \<Rightarrow> settings" where
  "settingsOf is ls =
     \<lparr> intSetting = map_of is, listSetting = map_of ls,
       stringSetting = Map.empty \<rparr>"



text \<open>
  A configuration whose \<^verbatim>\<open>wsControlInitSpecs\<close> holds two IPC endpoints, whose
  \<^verbatim>\<open>wsControlStreamSpecs\<close> holds one, and whose single-valued specs are an IPC and a
  TCP endpoint.
\<close>

definition exampleConfig :: Configuration where
  "exampleConfig =
     \<lparr> config_id = 0,
       clientId = ''proxy_1'',
       serverInSpecs = [''ipc://in''],
       serverInStreamSpecs = [''ipc://in-stream''],
       serverOutSpecs = [''ipc://out''],
       clientOutSpecs = [''ipc://client-out''],
       clientOutStreamSpecs = [''ipc://client-out-stream''],
       clientInSpecs = [''ipc://client-in''],
       inspectSpec = ''ipc://inspect'',
       acceptSpec = ''tcp://127.0.0.1:5562'',
       retryInSpec = [],
       wsControlInitSpecs = [''ipc://ws-a'', ''ipc://ws-b''],
       wsControlStreamSpecs = [''ipc://ws-stream''],
       statsSpec = [],
       commandSpec = [],
       intServerInSpecs = [],
       intServerInStreamSpecs = [],
       intServerOutSpecs = [],
       sessionsMax = 25000 \<rparr>"


subsection \<open>The event loop budget of a worker\<close>

text \<open>
  The macros \<^verbatim>\<open>TIMERS_PER_SESSION\<close>, \<^verbatim>\<open>ZROUTES_MAX\<close>, \<^verbatim>\<open>TIMERS_PER_ZROUTE\<close>,
  \<^verbatim>\<open>SOCKETNOTIFIERS_PER_ZROUTE\<close>, \<^verbatim>\<open>SOCKETNOTIFIERS_PER_SIMPLEHTTPREQUEST\<close> and
  \<^verbatim>\<open>PROMETHEUS_CONNECTIONS_MAX\<close> are defined in headers outside the sources at
  hand; they are parameters here.
\<close>

record tuning =
  TIMERS_PER_SESSION :: int
  ZROUTES_MAX :: int
  TIMERS_PER_ZROUTE :: int
  SOCKETNOTIFIERS_PER_ZROUTE :: int
  SOCKETNOTIFIERS_PER_SIMPLEHTTPREQUEST :: int
  PROMETHEUS_CONNECTIONS_MAX :: int





definition exampleTuning :: tuning where
  "exampleTuning =
     \<lparr> TIMERS_PER_SESSION = 10, ZROUTES_MAX = 100, TIMERS_PER_ZROUTE = 10,
       SOCKETNOTIFIERS_PER_ZROUTE = 3, SOCKETNOTIFIERS_PER_SIMPLEHTTPREQUEST = 1,
       PROMETHEUS_CONNECTIONS_MAX = 16 \<rparr>"

subsection \<open>Command line routes and the domain map\<close>

text \<open>
  The part of \<^verbatim>\<open>parseCommandLine\<close> about \<^verbatim>\<open>--route\<close>: the argument is
  \<^verbatim>\<open>parser->values(routeOption)\<close>, the values of the option in the order given;
  the option is set when there is at least one. \<^verbatim>\<open>args->routeLines\<close> starts empty.
\<close>

definition parseCommandLine_routeLines :: "string list \<Rightarrow> string list" where
  "parseCommandLine_routeLines routeValues =
     (if routeValues \<noteq> [] then foldl (\<lambda>routeLines r. routeLines @ [r]) [] routeValues else [])"

text \<open>
  Modelled from the spec: the class \<^verbatim>\<open>DomainMap\<close> (its constructors and
  \<^verbatim>\<open>addRouteLine\<close>) is declared outside the sources at hand. The spec gives its
  operations as "construct from a routes file, or from an in-memory list of route lines;
  addRouteLine(line)". A domain map is recorded by how it was built: the routes file it
  was constructed from, if any, and the lines handed to \<^verbatim>\<open>addRouteLine\<close>, in order.
\<close>

record DomainMap =
  routesFileOf :: "string option"
  addedRouteLines :: "string list"
  domainMapNewEventLoop :: bool

definition DomainMap_inMemory :: "bool \<Rightarrow> DomainMap" where
  "DomainMap_inMemory newEventLoop =
     \<lparr> routesFileOf = None, addedRouteLines = [], domainMapNewEventLoop = newEventLoop \<rparr>"

definition DomainMap_fromFile :: "string \<Rightarrow> bool \<Rightarrow> DomainMap" where
  "DomainMap_fromFile fileName newEventLoop =
     \<lparr> routesFileOf = Some fileName, addedRouteLines = [], domainMapNewEventLoop = newEventLoop \<rparr>"

definition addRouteLine :: "DomainMap \<Rightarrow> string \<Rightarrow> DomainMap" where
  "addRouteLine dm line = dm\<lparr> addedRouteLines := addedRouteLines dm @ [line] \<rparr>"

text \<open>The first statement of the deferred call of \<^verbatim>\<open>runLoop\<close>.\<close>

definition runLoop_domainMap :: "string list \<Rightarrow> string \<Rightarrow> bool \<Rightarrow> DomainMap" where
  "runLoop_domainMap routeLines routesFile newEventLoop =
     (if routeLines \<noteq> [] then foldl addRouteLine (DomainMap_inMemory newEventLoop) routeLines
      else DomainMap_fromFile routesFile newEventLoop)"

subsection \<open>EngineThread::start and EngineThread::run\<close>

text \<open>
  \<^verbatim>\<open>EngineThread::start\<close> runs on the supervisor's thread and
  \<^verbatim>\<open>EngineThread::run\<close> on the worker thread it spawns. The two threads meet at the
  mutex \<^verbatim>\<open>m\<close> and the wait condition \<^verbatim>\<open>w\<close>. Each thread is a program counter;
  a step of a thread that cannot proceed (the mutex is held by the other thread, or the
  thread waits on the condition) leaves the state as it is. A schedule is the list of
  threads in the order in which they are given a step.
\<close>

datatype thread = Supervisor | Worker

datatype worker_signal = SignalStarted | SignalError

text \<open>
  The supervisor in \<^verbatim>\<open>start\<close>: before \<^verbatim>\<open>QMutexLocker locker(&m)\<close>; holding
  \<^verbatim>\<open>m\<close>, before \<^verbatim>\<open>std::thread\<close> is created; before \<^verbatim>\<open>w.wait(&m)\<close>; inside
  \<^verbatim>\<open>wait\<close> with \<^verbatim>\<open>m\<close> released; woken, before \<^verbatim>\<open>wait\<close> has taken \<^verbatim>\<open>m\<close>
  again; before \<^verbatim>\<open>return (bool)worker\<close>; returned.
\<close>

datatype sup_pc = SupLock | SupSpawn | SupWait | SupBlocked | SupWoken | SupReturn | SupDone bool

text \<open>
  The worker thread in \<^verbatim>\<open>run\<close>: not spawned; at \<^verbatim>\<open>m.lock()\<close>; before
  \<^verbatim>\<open>worker = std::make_unique<EngineWorker>(...)\<close>; in \<^verbatim>\<open>exec()\<close> before the
  deferred \<^verbatim>\<open>worker->start()\<close>; in the handler of \<^verbatim>\<open>started\<close> before
  \<^verbatim>\<open>w.wakeOne()\<close> and before \<^verbatim>\<open>m.unlock()\<close>; in the handler of \<^verbatim>\<open>error\<close>
  before \<^verbatim>\<open>worker.reset()\<close>, before \<^verbatim>\<open>w.wakeOne()\<close> and before
  \<^verbatim>\<open>m.unlock()\<close>; in the event loop after a successful start; after the event loop
  has exited.
\<close>

datatype wrk_pc =
  WNotSpawned | WLock | WCreate | WExec
  | WStartedWake | WStartedUnlock
  | WErrorReset | WErrorWake | WErrorUnlock
  | WLoop | WLoopExited

record handshake =
  sup :: sup_pc
  wrk :: wrk_pc
  mutexOwner :: "thread option"
  workerSet :: bool
  signalled :: "worker_signal option"

definition start_init :: handshake where
  "start_init =
     \<lparr> sup = SupLock, wrk = WNotSpawned, mutexOwner = None, workerSet = False,
       signalled = None \<rparr>"

text \<open>\<^verbatim>\<open>w.wakeOne()\<close> wakes the supervisor if it waits, and is lost otherwise.\<close>

definition wakeOne :: "handshake \<Rightarrow> handshake" where
  "wakeOne s = (if sup s = SupBlocked then s\<lparr> sup := SupWoken \<rparr> else s)"

definition sup_step :: "handshake \<Rightarrow> handshake" where
  "sup_step s =
     (case sup s of
        SupLock \<Rightarrow>
          if mutexOwner s = None then s\<lparr> mutexOwner := Some Supervisor, sup := SupSpawn \<rparr> else s
      | SupSpawn \<Rightarrow> s\<lparr> wrk := WLock, sup := SupWait \<rparr>
      | SupWait \<Rightarrow> s\<lparr> mutexOwner := None, sup := SupBlocked \<rparr>
      | SupBlocked \<Rightarrow> s
      | SupWoken \<Rightarrow>
          if mutexOwner s = None then s\<lparr> mutexOwner := Some Supervisor, sup := SupReturn \<rparr> else s
      | SupReturn \<Rightarrow> s\<lparr> mutexOwner := None, sup := SupDone (workerSet s) \<rparr>
      | SupDone b \<Rightarrow> s)"

text \<open>
  \<open>engineOk\<close> is the result of \<^verbatim>\<open>engine_->start(config_)\<close> in
  \<^verbatim>\<open>EngineWorker::start\<close>, which emits \<^verbatim>\<open>started\<close> or \<^verbatim>\<open>error\<close>.
\<close>

definition wrk_step :: "bool \<Rightarrow> handshake \<Rightarrow> handshake" where
  "wrk_step engineOk s =
     (case wrk s of
        WNotSpawned \<Rightarrow> s
      | WLock \<Rightarrow>
          if mutexOwner s = None then s\<lparr> mutexOwner := Some Worker, wrk := WCreate \<rparr> else s
      | WCreate \<Rightarrow> s\<lparr> workerSet := True, wrk := WExec \<rparr>
      | WExec \<Rightarrow>
          if engineOk then s\<lparr> signalled := Some SignalStarted, wrk := WStartedWake \<rparr>
          else s\<lparr> signalled := Some SignalError, wrk := WErrorReset \<rparr>
      | WStartedWake \<Rightarrow> (wakeOne s)\<lparr> wrk := WStartedUnlock \<rparr>
      | WStartedUnlock \<Rightarrow> s\<lparr> mutexOwner := None, wrk := WLoop \<rparr>
      | WErrorReset \<Rightarrow> s\<lparr> workerSet := False, wrk := WErrorWake \<rparr>
      | WErrorWake \<Rightarrow> (wakeOne s)\<lparr> wrk := WErrorUnlock \<rparr>
      | WErrorUnlock \<Rightarrow> s\<lparr> mutexOwner := None, wrk := WLoopExited \<rparr>
      | WLoop \<Rightarrow> s
      | WLoopExited \<Rightarrow> s)"

definition step :: "bool \<Rightarrow> handshake \<Rightarrow> thread \<Rightarrow> handshake" where
  "step engineOk s t = (case t of Supervisor \<Rightarrow> sup_step s | Worker \<Rightarrow> wrk_step engineOk s)"

definition run_schedule :: "bool \<Rightarrow> thread list \<Rightarrow> handshake \<Rightarrow> handshake" where
  "run_schedule engineOk sched s = foldl (step engineOk) s sched"

text \<open>
  The value \<^verbatim>\<open>start\<close> returns under a schedule, or \<open>None\<close> when the schedule
  ends before \<^verbatim>\<open>start\<close> has returned.
\<close>

definition EngineThread_start :: "bool \<Rightarrow> thread list \<Rightarrow> bool option" where
  "EngineThread_start engineOk sched =
     (case sup (run_schedule engineOk sched start_init) of SupDone b \<Rightarrow> Some b | _ \<Rightarrow> None)"

text \<open>The schedule that gives the two threads a step in turn, \<open>k\<close> times each.\<close>

definition round_robin :: "nat \<Rightarrow> thread list" where
  "round_robin k = concat (replicate k [Supervisor, Worker])"

subsection \<open>The supervisor: starting the workers, and the signal handlers\<close>

text \<open>
  What the deferred call of \<^verbatim>\<open>runLoop\<close> and the handlers it connects act on: the list
  \<^verbatim>\<open>threads\<close> (an \<^verbatim>\<open>EngineThread\<close> is named by its worker index), the
  \<^verbatim>\<open>EngineThread\<close> objects deleted and those asked to stop, in order, the code given
  to \<^verbatim>\<open>loop->exit\<close> or \<^verbatim>\<open>QCoreApplication::exit\<close>, which \<^verbatim>\<open>exec\<close> and then
  \<^verbatim>\<open>runLoop\<close> and \<^verbatim>\<open>App::run\<close> return, the number of calls of
  \<^verbatim>\<open>log_rotate\<close> and of \<^verbatim>\<open>DomainMap::reload\<close>, whether
  \<^verbatim>\<open>ProcessQuit::cleanup\<close> has run, and the messages of \<^verbatim>\<open>log_info\<close>.
\<close>

record supervisor =
  threads :: "int list"
  deletedThreads :: "int list"
  stopRequests :: "int list"
  exitCode :: "int option"
  logRotations :: nat
  domainMapReloads :: nat
  processQuitCleanedUp :: bool
  infoLog :: "string list"

definition supervisor_init :: supervisor where
  "supervisor_init =
     \<lparr> threads = [], deletedThreads = [], stopRequests = [], exitCode = None,
       logRotations = 0, domainMapReloads = 0, processQuitCleanedUp = False, infoLog = [] \<rparr>"

text \<open>
  The loop \<^verbatim>\<open>for(int n = 0; n < workerCount; ++n)\<close> of \<^verbatim>\<open>runLoop\<close>, from index
  \<open>n\<close> on. \<open>engineOk n\<close> tells whether the engine of worker \<open>n\<close> starts, and
  \<open>scheds n\<close> is the schedule under which \<^verbatim>\<open>t->start()\<close> runs for worker
  \<open>n\<close>. The result is \<open>None\<close> when a call of \<^verbatim>\<open>start\<close> does not return.
\<close>

function startWorkers ::
  "(int \<Rightarrow> bool) \<Rightarrow> (int \<Rightarrow> thread list) \<Rightarrow> int \<Rightarrow> int \<Rightarrow> supervisor \<Rightarrow> supervisor option"
where
  "startWorkers engineOk scheds wcount n s =
     (if n < wcount then
        (case EngineThread_start (engineOk n) (scheds n) of
           None \<Rightarrow> None
         | Some started \<Rightarrow>
             if \<not> started then
               Some (s\<lparr> deletedThreads := deletedThreads s @ [n] @ threads s,
                        threads := [],
                        exitCode := Some 1 \<rparr>)
             else startWorkers engineOk scheds wcount (n + 1) (s\<lparr> threads := threads s @ [n] \<rparr>))
      else Some (s\<lparr> infoLog := infoLog s @ [''started''] \<rparr>))"
  by pat_completeness auto
termination
  by (relation "measure (\<lambda>(engineOk, scheds, wcount, n, s). nat (wcount - n))") auto

declare startWorkers.simps [simp del]

text \<open>The handler connected to \<^verbatim>\<open>ProcessQuit::instance()->hup\<close>.\<close>

definition hup_handler :: "supervisor \<Rightarrow> supervisor" where
  "hup_handler s =
     s\<lparr> infoLog := infoLog s @ [''reloading''],
        logRotations := Suc (logRotations s),
        domainMapReloads := Suc (domainMapReloads s) \<rparr>"

text \<open>The handler connected to \<^verbatim>\<open>ProcessQuit::instance()->quit\<close>.\<close>

definition quit_handler :: "supervisor \<Rightarrow> supervisor" where
  "quit_handler s =
     s\<lparr> infoLog := infoLog s @ [''stopping...''],
        processQuitCleanedUp := True,
        stopRequests := stopRequests s @ threads s,
        deletedThreads := deletedThreads s @ threads s,
        threads := [],
        exitCode := Some 0 \<rparr>"

subsection \<open>The conncheck control request\<close>

text \<open>
  A \<^verbatim>\<open>QVariant\<close>, with the types that RPC arguments and results are made of. The
  type id of a value is its constructor.
\<close>

datatype QVariant =
  Invalid
  | VBool bool
  | VInt int
  | VString string
  | VByteArray string
  | VStringList "string list"
  | VList "QVariant list"
  | VHash "(string \<times> QVariant) list"

text \<open>
  The call \<^verbatim>\<open>req->start(method, args)\<close> that the constructor of \<^verbatim>\<open>ConnCheck\<close>
  makes. \<open>cids\<close> lists the elements of the \<^verbatim>\<open>CidSet\<close> in the order in which
  \<^verbatim>\<open>foreach\<close> visits them, and \<open>toUtf8\<close> is \<^verbatim>\<open>QString::toUtf8\<close>; the type
  \<open>'q\<close> stands for \<^verbatim>\<open>QString\<close>.
\<close>

definition ConnCheck_start :: "('q \<Rightarrow> string) \<Rightarrow> 'q list \<Rightarrow> string \<times> (string \<times> QVariant) list" where
  "ConnCheck_start toUtf8 cids =
     (let vcids = foldl (\<lambda>vcids cid. vcids @ [VByteArray (toUtf8 cid)]) [] cids;
          args = [(''ids'', VList vcids)]
      in (''conncheck'', args))"

text \<open>
  What a finished \<^verbatim>\<open>ZrpcRequest\<close> answers to \<^verbatim>\<open>success()\<close>, \<^verbatim>\<open>result()\<close>
  and \<^verbatim>\<open>errorCondition()\<close>; the type \<open>'e\<close> stands for
  \<^verbatim>\<open>ZrpcRequest::ErrorCondition\<close>.
\<close>

record 'e ZrpcReply =
  success :: bool
  result :: QVariant
  errorCondition :: 'e

text \<open>
  The arguments of \<^verbatim>\<open>Deferred::setFinished(bool, QVariant)\<close>: whether the call
  succeeded and its value, which is empty (the default argument), the
  \<^verbatim>\<open>CidSet\<close> read from the reply, or the error condition of the request.
\<close>

datatype ('q, 'e) finished_value = NoValue | CidSetValue "'q set" | ErrorValue 'e

datatype ('q, 'e) finished = Finished bool "('q, 'e) finished_value"

text \<open>
  The loop \<^verbatim>\<open>foreach(const QVariant &vcid, result)\<close> of \<^verbatim>\<open>req_finished\<close>:
  \<open>None\<close> when it leaves through \<^verbatim>\<open>setFinished(false); return\<close> at an
  element that is not a byte array, the set \<^verbatim>\<open>out\<close> otherwise. \<open>fromUtf8\<close> is
  \<^verbatim>\<open>QString::fromUtf8\<close>.
\<close>

fun collect_cids :: "(string \<Rightarrow> 'q) \<Rightarrow> QVariant list \<Rightarrow> 'q set \<Rightarrow> 'q set option" where
  "collect_cids fromUtf8 [] out = Some out"
| "collect_cids fromUtf8 (vcid # rest) out =
     (case vcid of
        VByteArray b \<Rightarrow> collect_cids fromUtf8 rest (insert (fromUtf8 b) out)
      | _ \<Rightarrow> None)"

definition req_finished :: "(string \<Rightarrow> 'q) \<Rightarrow> 'e ZrpcReply \<Rightarrow> ('q, 'e) finished" where
  "req_finished fromUtf8 req =
     (if success req then
        (case result req of
           VList res \<Rightarrow>
             (case collect_cids fromUtf8 res {} of
                None \<Rightarrow> Finished False NoValue
              | Some out \<Rightarrow> Finished True (CidSetValue out))
         | _ \<Rightarrow> Finished False NoValue)
      else Finished False (ErrorValue (errorCondition req)))"

text \<open>The byte arrays among the elements of a list of variants.\<close>

fun byteArraysOf :: "QVariant list \<Rightarrow> string list" where
  "byteArraysOf [] = []"
| "byteArraysOf (VByteArray b # rest) = b # byteArraysOf rest"
| "byteArraysOf (v # rest) = byteArraysOf rest"

fun isByteArray :: "QVariant \<Rightarrow> bool" where
  "isByteArray (VByteArray b) = True"
| "isByteArray v = False"

fun isVariantList :: "QVariant \<Rightarrow> bool" where
  "isVariantList (VList l) = True"
| "isVariantList v = False"

subsection \<open>The updater's response handler\<close>

definition MAX_RESPONSE_SIZE :: int where
  "MAX_RESPONSE_SIZE = 50000"

text \<open>
  What \<^verbatim>\<open>req_readyRead\<close> reads from the \<^verbatim>\<open>ZhttpRequest\<close>: the response bytes
  buffered so far (\<^verbatim>\<open>bytesAvailable()\<close> is their number and \<^verbatim>\<open>readBody()\<close>
  returns them), \<^verbatim>\<open>isFinished()\<close> and \<^verbatim>\<open>responseCode()\<close>.
\<close>

record ZhttpRequest =
  responseBody :: string
  isFinished :: bool
  responseCode :: int

definition bytesAvailable :: "ZhttpRequest \<Rightarrow> int" where
  "bytesAvailable req = int (length (responseBody req))"

text \<open>
  The outcome of one call of \<^verbatim>\<open>req_readyRead\<close>, up to the point where the body has
  been read and is handed to the JSON parser: the response is rejected as too large,
  the handler returns to wait for more, the response code is not 200, or the body is
  read.
\<close>

datatype readyRead_outcome =
  ResponseTooLarge | NotFinished | BadResponseCode int | BodyRead string

text \<open>
  \<^verbatim>\<open>req_readyRead\<close>: the outcome and the member \<^verbatim>\<open>req\<close> afterwards, which
  \<^verbatim>\<open>cleanupRequest\<close> resets.
\<close>

definition req_readyRead :: "ZhttpRequest \<Rightarrow> readyRead_outcome \<times> ZhttpRequest option" where
  "req_readyRead req =
     (if bytesAvailable req > MAX_RESPONSE_SIZE then (ResponseTooLarge, None)
      else if \<not> isFinished req then (NotFinished, Some req)
      else if responseCode req \<noteq> 200 then (BadResponseCode (responseCode req), None)
      else (BodyRead (responseBody req), None))"

subsection \<open>Reachable states of the start handshake\<close>

text \<open>The states the two threads can be in together.\<close>

definition handshake_inv :: "bool \<Rightarrow> handshake \<Rightarrow> bool" where
  "handshake_inv ok s =
     (case sup s of
        SupLock \<Rightarrow> wrk s = WNotSpawned \<and> mutexOwner s = None \<and> signalled s = None
      | SupSpawn \<Rightarrow> wrk s = WNotSpawned \<and> mutexOwner s = Some Supervisor \<and> signalled s = None
      | SupWait \<Rightarrow> wrk s = WLock \<and> mutexOwner s = Some Supervisor \<and> signalled s = None
      | SupBlocked \<Rightarrow>
          (case wrk s of
             WLock \<Rightarrow> mutexOwner s = None \<and> signalled s = None
           | WCreate \<Rightarrow> mutexOwner s = Some Worker \<and> signalled s = None
           | WExec \<Rightarrow> mutexOwner s = Some Worker \<and> signalled s = None \<and> workerSet s
           | WStartedWake \<Rightarrow>
               mutexOwner s = Some Worker \<and> signalled s = Some SignalStarted \<and> workerSet s \<and> ok
           | WErrorReset \<Rightarrow>
               mutexOwner s = Some Worker \<and> signalled s = Some SignalError \<and> \<not> ok
           | WErrorWake \<Rightarrow>
               mutexOwner s = Some Worker \<and> signalled s = Some SignalError \<and> \<not> workerSet s \<and> \<not> ok
           | _ \<Rightarrow> False)
      | SupWoken \<Rightarrow>
          (case wrk s of
             WStartedUnlock \<Rightarrow>
               mutexOwner s = Some Worker \<and> signalled s = Some SignalStarted \<and> workerSet s \<and> ok
           | WLoop \<Rightarrow> mutexOwner s = None \<and> signalled s = Some SignalStarted \<and> workerSet s \<and> ok
           | WErrorUnlock \<Rightarrow>
               mutexOwner s = Some Worker \<and> signalled s = Some SignalError \<and> \<not> workerSet s \<and> \<not> ok
           | WLoopExited \<Rightarrow>
               mutexOwner s = None \<and> signalled s = Some SignalError \<and> \<not> workerSet s \<and> \<not> ok
           | _ \<Rightarrow> False)
      | SupReturn \<Rightarrow>
          mutexOwner s = Some Supervisor
          \<and> (case wrk s of
                WLoop \<Rightarrow> signalled s = Some SignalStarted \<and> workerSet s \<and> ok
              | WLoopExited \<Rightarrow> signalled s = Some SignalError \<and> \<not> workerSet s \<and> \<not> ok
              | _ \<Rightarrow> False)
      | SupDone b \<Rightarrow>
          mutexOwner s = None \<and> b = ok
          \<and> (case wrk s of
                WLoop \<Rightarrow> signalled s = Some SignalStarted \<and> workerSet s \<and> ok
              | WLoopExited \<Rightarrow> signalled s = Some SignalError \<and> \<not> workerSet s \<and> \<not> ok
              | _ \<Rightarrow> False))"

text \<open>
  How far the handshake has come: the position of a state in the order in which the
  states above follow each other.
\<close>

definition phase :: "handshake \<Rightarrow> nat" where
  "phase s =
     (case sup s of
        SupLock \<Rightarrow> 0
      | SupSpawn \<Rightarrow> 1
      | SupWait \<Rightarrow> 2
      | SupBlocked \<Rightarrow>
          (case wrk s of
             WLock \<Rightarrow> 3 | WCreate \<Rightarrow> 4 | WExec \<Rightarrow> 5
           | WStartedWake \<Rightarrow> 6 | WErrorReset \<Rightarrow> 6 | WErrorWake \<Rightarrow> 7 | _ \<Rightarrow> 3)
      | SupWoken \<Rightarrow>
          (case wrk s of
             WStartedUnlock \<Rightarrow> 7 | WLoop \<Rightarrow> 9 | WErrorUnlock \<Rightarrow> 8 | WLoopExited \<Rightarrow> 9 | _ \<Rightarrow> 7)
      | SupReturn \<Rightarrow> 10
      | SupDone b \<Rightarrow> 11)"

subsection \<open>Example replies and responses\<close>

text \<open>A reply with error condition 3, and a finished 200 response of \<open>n\<close> bytes.\<close>

definition reply :: "bool \<Rightarrow> QVariant \<Rightarrow> nat ZrpcReply" where
  "reply ok v = \<lparr> success = ok, result = v, errorCondition = 3 \<rparr>"

definition response :: "nat \<Rightarrow> ZhttpRequest" where
  "response n = \<lparr> responseBody = replicate n CHR ''x'', isFinished = True, responseCode = 200 \<rparr>"

subsection \<open>Properties of trimlist\<close>







subsection \<open>The total session limit\<close>

text \<open>
  C9. The effective total session limit is \<^verbatim>\<open>runner/client_maxconn\<close> (50000 when
  that key is not set) when \<^verbatim>\<open>proxy/max_open_requests\<close> is not set or is negative,
  and the minimum of the two when \<^verbatim>\<open>proxy/max_open_requests\<close> is set to a value that
  is not negative.
\<close>

theorem totalSessionsMax_is_clamped:
  "(intSetting st ''runner/client_maxconn'' = None \<longrightarrow> value_toInt st ''runner/client_maxconn'' 50000 = 50000)
   \<and> (intSetting st ''proxy/max_open_requests'' = None
        \<longrightarrow> totalSessionsMax st = value_toInt st ''runner/client_maxconn'' 50000)
   \<and> (\<forall>m. intSetting st ''proxy/max_open_requests'' = Some m \<and> m < 0
        \<longrightarrow> totalSessionsMax st = value_toInt st ''runner/client_maxconn'' 50000)
   \<and> (\<forall>m. intSetting st ''proxy/max_open_requests'' = Some m \<and> 0 \<le> m
        \<longrightarrow> totalSessionsMax st = min m (value_toInt st ''runner/client_maxconn'' 50000))"
  by (simp add: totalSessionsMax_def value_toInt_def Let_def)

theorem totalSessionsMax_is_clamped_witness:
  "totalSessionsMax (settingsOf [] []) = 50000
   \<and> totalSessionsMax (settingsOf [(''proxy/max_open_requests'', - 3), (''runner/client_maxconn'', 20)] []) = 20
   \<and> totalSessionsMax (settingsOf [(''proxy/max_open_requests'', 70000)] []) = 50000
   \<and> totalSessionsMax (settingsOf [(''proxy/max_open_requests'', 70)] []) = 70"
  using totalSessionsMax_is_clamped [of "settingsOf [] []"]
    totalSessionsMax_is_clamped [of "settingsOf [(''proxy/max_open_requests'', - 3), (''runner/client_maxconn'', 20)] []"]
    totalSessionsMax_is_clamped [of "settingsOf [(''proxy/max_open_requests'', 70000)] []"]
    totalSessionsMax_is_clamped [of "settingsOf [(''proxy/max_open_requests'', 70)] []"]
  by (simp add: settingsOf_def value_toInt_def)

subsection \<open>The session limit of each worker\<close>











subsection \<open>Suffixed endpoint specs\<close>

lemma number_small: "number 1 = ''1''"
  by (simp add: number_def number_nat.simps digit_def)

lemma singleSpecs_multi:
  "1 < wc \<Longrightarrow> singleSpecs (workerConfig c wc n) = map (\<lambda>s. suffixSpec s n) (singleSpecs c)"
  by (simp add: singleSpecs_def workerConfig_def Let_def)

lemma listSpecs_multi:
  "1 < wc \<Longrightarrow> listSpecs (workerConfig c wc n) = map (\<lambda>l. suffixSpecs l n) (listSpecs c)"
  by (simp add: listSpecs_def workerConfig_def Let_def)

lemma connmgrSpecs_same: "connmgrSpecs (workerConfig c wc n) = connmgrSpecs c"
  by (simp add: connmgrSpecs_def workerConfig_def Let_def)

lemma specs_single_worker:
  "\<not> 1 < wc \<Longrightarrow> singleSpecs (workerConfig c wc n) = singleSpecs c
      \<and> listSpecs (workerConfig c wc n) = listSpecs c"
  by (simp add: singleSpecs_def listSpecs_def workerConfig_def Let_def)

lemma suffixSpecs_cases:
  "suffixSpecs l n = (case l of [s] \<Rightarrow> if prefix ''ipc:'' s then [s @ ''-'' @ number n] else l | _ \<Rightarrow> l)"
  by (cases l) (auto simp: suffixSpecs_def split: list.splits)

text \<open>
  C2, as amended. With more than one worker, the configuration of worker \<open>n\<close> has
  each single-valued spec (inspect, accept, retry-in, stats, command) suffixed with
  \<open>-n\<close> when it starts with \<open>ipc:\<close> and unchanged otherwise; a list-valued spec
  (ws-control init and stream, intreq in, in-stream and out) is suffixed only when the
  list has exactly one entry and that entry starts with \<open>ipc:\<close>, and is unchanged
  otherwise. With at most one worker no spec is changed. The connection manager's lists
  are never changed.
\<close>

theorem worker_specs_suffixed:
  "(1 < wc \<longrightarrow>
      singleSpecs (workerConfig c wc n)
        = map (\<lambda>s. if prefix ''ipc:'' s then s @ ''-'' @ number n else s) (singleSpecs c)
    \<and> listSpecs (workerConfig c wc n)
        = map (\<lambda>l. case l of
                     [s] \<Rightarrow> if prefix ''ipc:'' s then [s @ ''-'' @ number n] else l
                   | _ \<Rightarrow> l) (listSpecs c))
   \<and> (wc \<le> 1 \<longrightarrow>
      singleSpecs (workerConfig c wc n) = singleSpecs c
    \<and> listSpecs (workerConfig c wc n) = listSpecs c)
   \<and> connmgrSpecs (workerConfig c wc n) = connmgrSpecs c"
proof -
  have "(\<lambda>s. suffixSpec s n) = (\<lambda>s. if prefix ''ipc:'' s then s @ ''-'' @ number n else s)"
    by (rule ext) (simp add: suffixSpec_def)
  moreover have "(\<lambda>l. suffixSpecs l n)
      = (\<lambda>l. case l of [s] \<Rightarrow> if prefix ''ipc:'' s then [s @ ''-'' @ number n] else l | _ \<Rightarrow> l)"
    by (rule ext) (rule suffixSpecs_cases)
  ultimately show ?thesis
    using singleSpecs_multi [of wc c n] listSpecs_multi [of wc c n]
      specs_single_worker [of wc c n] connmgrSpecs_same [of c wc n]
    by (simp only: not_less) simp
qed

lemma exampleConfig_single: "singleSpecs exampleConfig = [''ipc://inspect'', ''tcp://127.0.0.1:5562'', [], [], []]"
  by (simp add: singleSpecs_def exampleConfig_def)

lemma exampleConfig_list: "listSpecs exampleConfig = [[''ipc://ws-a'', ''ipc://ws-b''], [''ipc://ws-stream''], [], [], []]"
  by (simp add: listSpecs_def exampleConfig_def)

theorem worker_specs_suffixed_witness:
  "singleSpecs (workerConfig exampleConfig 2 1)
     = [''ipc://inspect-1'', ''tcp://127.0.0.1:5562'', [], [], []]
   \<and> listSpecs (workerConfig exampleConfig 2 1)
     = [[''ipc://ws-a'', ''ipc://ws-b''], [''ipc://ws-stream-1''], [], [], []]
   \<and> singleSpecs (workerConfig exampleConfig 1 0) = [''ipc://inspect'', ''tcp://127.0.0.1:5562'', [], [], []]
   \<and> listSpecs (workerConfig exampleConfig 1 0)
     = [[''ipc://ws-a'', ''ipc://ws-b''], [''ipc://ws-stream''], [], [], []]"
  using worker_specs_suffixed [of 2 exampleConfig 1] worker_specs_suffixed [of 1 exampleConfig 0]
  by (simp add: exampleConfig_single exampleConfig_list number_small)

text \<open>
  A list of two IPC endpoints stays as it is in the configuration of worker 1 of 2:
  neither endpoint is suffixed.
\<close>

theorem ipc_list_not_suffixed_counterexample:
  "wsControlInitSpecs exampleConfig = [''ipc://ws-a'', ''ipc://ws-b'']
   \<and> wsControlInitSpecs (workerConfig exampleConfig 2 1) = [''ipc://ws-a'', ''ipc://ws-b'']"
  by (simp add: workerConfig_def exampleConfig_def suffixSpecs_def Let_def)

subsection \<open>The event loop budget\<close>


subsection \<open>Route lines and the routes file\<close>

lemma foldl_snoc: "foldl (\<lambda>acc r. acc @ [r]) acc xs = acc @ xs"
  by (induction xs arbitrary: acc) simp_all

lemma parseCommandLine_routeLines_eq: "parseCommandLine_routeLines vs = vs"
  by (simp add: parseCommandLine_routeLines_def foldl_snoc)

lemma foldl_addRouteLine:
  "foldl addRouteLine dm ls = dm\<lparr> addedRouteLines := addedRouteLines dm @ ls \<rparr>"
  by (induction ls arbitrary: dm) (simp_all add: addRouteLine_def)

text \<open>
  C5. When at least one \<^verbatim>\<open>--route\<close> line is given, the domain map is built from
  no routes file and holds exactly the given lines, each added by
  \<^verbatim>\<open>addRouteLine\<close> in the order given; when none is given, the domain map is the one
  constructed from the routes file.
\<close>

theorem route_lines_override_routes_file:
  "(routeValues \<noteq> [] \<longrightarrow>
      runLoop_domainMap (parseCommandLine_routeLines routeValues) routesFile newEventLoop
        = \<lparr> routesFileOf = None, addedRouteLines = routeValues,
            domainMapNewEventLoop = newEventLoop \<rparr>)
   \<and> (routeValues = [] \<longrightarrow>
      runLoop_domainMap (parseCommandLine_routeLines routeValues) routesFile newEventLoop
        = DomainMap_fromFile routesFile newEventLoop)"
  by (simp add: runLoop_domainMap_def parseCommandLine_routeLines_eq foldl_addRouteLine
      DomainMap_inMemory_def)

theorem route_lines_override_routes_file_witness:
  "runLoop_domainMap (parseCommandLine_routeLines [''* localhost:80'', ''example.com backend:8080''])
      ''/etc/pushpin/routes'' True
     = \<lparr> routesFileOf = None, addedRouteLines = [''* localhost:80'', ''example.com backend:8080''],
         domainMapNewEventLoop = True \<rparr>
   \<and> runLoop_domainMap (parseCommandLine_routeLines []) ''/etc/pushpin/routes'' True
     = \<lparr> routesFileOf = Some ''/etc/pushpin/routes'', addedRouteLines = [],
         domainMapNewEventLoop = True \<rparr>"
  using route_lines_override_routes_file [of "[''* localhost:80'', ''example.com backend:8080'']" "''/etc/pushpin/routes''" True]
    route_lines_override_routes_file [of "[]" "''/etc/pushpin/routes''" True]
  by (simp add: DomainMap_fromFile_def)

subsection \<open>Worker startup\<close>

lemma handshake_inv_init: "handshake_inv ok start_init"
  by (simp add: handshake_inv_def start_init_def)

lemma handshake_inv_sup_step: "handshake_inv ok s \<Longrightarrow> handshake_inv ok (sup_step s)"
  by (cases "sup s"; cases "wrk s") (simp_all add: handshake_inv_def sup_step_def)

lemma handshake_inv_wrk_step: "handshake_inv ok s \<Longrightarrow> handshake_inv ok (wrk_step ok s)"
  by (cases "sup s"; cases "wrk s") (simp_all add: handshake_inv_def wrk_step_def wakeOne_def)

lemma handshake_inv_step: "handshake_inv ok s \<Longrightarrow> handshake_inv ok (step ok s t)"
  by (cases t) (simp_all add: step_def handshake_inv_sup_step handshake_inv_wrk_step)

lemma handshake_inv_run: "handshake_inv ok s \<Longrightarrow> handshake_inv ok (run_schedule ok sched s)"
  unfolding run_schedule_def
  by (induction sched arbitrary: s) (simp_all add: handshake_inv_step)

lemma handshake_inv_reached: "handshake_inv ok (run_schedule ok sched start_init)"
  by (rule handshake_inv_run [OF handshake_inv_init])

lemma inv_done: "handshake_inv ok s \<Longrightarrow> sup s = SupDone b \<Longrightarrow>
    b = ok \<and> signalled s = Some (if ok then SignalStarted else SignalError)"
  by (cases "wrk s") (auto simp: handshake_inv_def)

lemma inv_unsignalled: "handshake_inv ok s \<Longrightarrow> signalled s = None \<Longrightarrow>
    sup s \<in> {SupLock, SupSpawn, SupWait, SupBlocked}"
  by (cases "sup s"; cases "wrk s") (auto simp: handshake_inv_def)

lemma phase_done: "phase s \<ge> 11 \<Longrightarrow> \<exists>b. sup s = SupDone b"
  by (cases "sup s"; cases "wrk s") (simp_all add: phase_def)

lemma inv_progress: "handshake_inv ok s \<Longrightarrow> phase s < 11 \<Longrightarrow>
    sup (sup_step s) \<noteq> sup s \<or> wrk (wrk_step ok s) \<noteq> wrk s"
  by (cases "sup s"; cases "wrk s")
    (simp_all add: handshake_inv_def sup_step_def wrk_step_def wakeOne_def phase_def)

lemma phase_sup_step:
  "handshake_inv ok s \<Longrightarrow> phase s \<le> phase (sup_step s)"
  by (cases "sup s"; cases "wrk s")
    (simp_all add: handshake_inv_def sup_step_def phase_def)

lemma phase_wrk_step:
  "handshake_inv ok s \<Longrightarrow> phase s \<le> phase (wrk_step ok s)"
  by (cases "sup s"; cases "wrk s")
    (simp_all add: handshake_inv_def wrk_step_def wakeOne_def phase_def)

lemma phase_some_step:
  "handshake_inv ok s \<Longrightarrow> phase s < 11 \<Longrightarrow>
     phase s < phase (sup_step s) \<or> phase s < phase (wrk_step ok s)"
  by (cases "sup s"; cases "wrk s")
    (simp_all add: handshake_inv_def sup_step_def wrk_step_def wakeOne_def phase_def)

lemma phase_round:
  assumes "handshake_inv ok s"
  shows "min 11 (Suc (phase s)) \<le> phase (wrk_step ok (sup_step s))"
proof (cases "phase s < 11")
  case True
  have i1: "handshake_inv ok (sup_step s)"
    by (rule handshake_inv_sup_step [OF assms])
  have a: "phase s \<le> phase (sup_step s)" by (rule phase_sup_step [OF assms])
  have b: "phase (sup_step s) \<le> phase (wrk_step ok (sup_step s))"
    by (rule phase_wrk_step [OF i1])
  show ?thesis
  proof (cases "phase s < phase (sup_step s)")
    case True
    with b show ?thesis by simp
  next
    case False
    with a have same: "phase (sup_step s) = phase s" by simp
    from False phase_some_step [OF assms True]
    have w: "phase s < phase (wrk_step ok s)" by simp
    have "sup_step s = s"
      using assms False
      by (cases "sup s"; cases "wrk s")
        (simp_all add: handshake_inv_def sup_step_def phase_def)
    with w show ?thesis by simp
  qed
next
  case False
  have i1: "handshake_inv ok (sup_step s)"
    by (rule handshake_inv_sup_step [OF assms])
  from False phase_sup_step [OF assms] phase_wrk_step [OF i1]
  show ?thesis by simp
qed

lemma run_schedule_append:
  "run_schedule ok (a @ b) s = run_schedule ok b (run_schedule ok a s)"
  by (simp add: run_schedule_def)

lemma round_robin_Suc:
  "run_schedule ok (round_robin (Suc k)) s
     = run_schedule ok (round_robin k) (wrk_step ok (sup_step s))"
  by (simp add: round_robin_def run_schedule_def step_def)

lemma phase_round_robin:
  "handshake_inv ok s \<Longrightarrow> min 11 (phase s + k) \<le> phase (run_schedule ok (round_robin k) s)"
proof (induction k arbitrary: s)
  case 0
  then show ?case by (simp add: round_robin_def run_schedule_def)
next
  case (Suc k)
  let ?s' = "wrk_step ok (sup_step s)"
  have i: "handshake_inv ok ?s'"
    by (intro handshake_inv_wrk_step handshake_inv_sup_step Suc.prems)
  from Suc.IH [OF i] phase_round [OF Suc.prems]
  show ?case by (simp add: round_robin_Suc)
qed

lemma inv_round_robin:
  assumes "handshake_inv ok s"
  shows "sup (run_schedule ok (round_robin 11) s) = SupDone ok"
proof -
  let ?t = "run_schedule ok (round_robin 11) s"
  have i: "handshake_inv ok ?t" by (rule handshake_inv_run [OF assms])
  from phase_round_robin [OF assms, of 11] have "11 \<le> phase ?t" by simp
  then obtain b where b: "sup ?t = SupDone b" using phase_done by blast
  with inv_done [OF i b] show ?thesis by simp
qed

lemma EngineThread_start_Some:
  "EngineThread_start ok sched = Some b \<Longrightarrow> b = ok"
  using inv_done [OF handshake_inv_reached [of ok sched]]
  by (auto simp: EngineThread_start_def split: sup_pc.splits)

lemma EngineThread_start_returns:
  "EngineThread_start ok (sched @ round_robin 11) = Some ok"
  using inv_round_robin [OF handshake_inv_reached [of ok sched]]
  by (simp add: EngineThread_start_def run_schedule_append)

lemma EngineThread_start_blocked:
  assumes "signalled (run_schedule ok sched start_init) = None"
  shows "EngineThread_start ok sched = None
    \<and> sup (run_schedule ok sched start_init) \<in> {SupLock, SupSpawn, SupWait, SupBlocked}"
proof -
  have m: "sup (run_schedule ok sched start_init) \<in> {SupLock, SupSpawn, SupWait, SupBlocked}"
    by (rule inv_unsignalled [OF handshake_inv_reached assms])
  then show ?thesis
    by (auto simp: EngineThread_start_def)
qed

lemma EngineThread_start_complete:
  "EngineThread_start ok sched \<noteq> None \<Longrightarrow> EngineThread_start ok sched = Some ok"
  using EngineThread_start_Some [of ok sched] by (cases "EngineThread_start ok sched") auto

lemma startWorkers_failure:
  assumes complete: "\<forall>i. EngineThread_start (engineOk i) (scheds i) \<noteq> None"
    and fails: "\<not> engineOk k" and before: "\<forall>i. n \<le> i \<and> i < k \<longrightarrow> engineOk i"
    and range: "n \<le> k" "k < wcount"
  shows "startWorkers engineOk scheds wcount n s
     = Some (s\<lparr> deletedThreads := deletedThreads s @ [k] @ threads s @ [n..k - 1],
               threads := [], exitCode := Some 1 \<rparr>)"
  using before range
proof (induction "nat (k - n)" arbitrary: n s)
  case 0
  then have nk: "n = k" by simp
  have "EngineThread_start (engineOk k) (scheds k) \<noteq> None"
    using complete by blast
  from EngineThread_start_complete [OF this]
  have st: "EngineThread_start (engineOk k) (scheds k) = Some False"
    using fails by simp
  show ?case
    using range(2) by (subst startWorkers.simps) (simp add: nk st)
next
  case (Suc d)
  then have lt: "n < k" by simp
  then have okn: "engineOk n" using Suc.prems by simp
  have "EngineThread_start (engineOk n) (scheds n) \<noteq> None"
    using complete by blast
  from EngineThread_start_complete [OF this]
  have st: "EngineThread_start (engineOk n) (scheds n) = Some True"
    using okn by simp
  have d: "d = nat (k - (n + 1))" using Suc.hyps(2) by simp
  have b: "\<forall>i. n + 1 \<le> i \<and> i < k \<longrightarrow> engineOk i" using Suc.prems(1) by simp
  have r: "n + 1 \<le> k" using lt by simp
  have u: "[n..k - 1] = n # [n + 1..k - 1]"
    using lt by (simp add: upto_rec1)
  have "startWorkers engineOk scheds wcount n s
      = startWorkers engineOk scheds wcount (n + 1) (s\<lparr> threads := threads s @ [n] \<rparr>)"
    using lt Suc.prems(3) by (subst startWorkers.simps) (simp add: st)
  also have "\<dots> = Some ((s\<lparr> threads := threads s @ [n] \<rparr>)
       \<lparr> deletedThreads := deletedThreads (s\<lparr> threads := threads s @ [n] \<rparr>) @ [k]
            @ threads (s\<lparr> threads := threads s @ [n] \<rparr>) @ [n + 1..k - 1],
         threads := [], exitCode := Some 1 \<rparr>)"
    by (rule Suc.hyps(1) [OF d b r Suc.prems(3)])
  finally show ?case by (simp add: u)
qed

lemma startWorkers_success:
  assumes complete: "\<forall>i. EngineThread_start (engineOk i) (scheds i) \<noteq> None"
    and all: "\<forall>i. n \<le> i \<and> i < wcount \<longrightarrow> engineOk i"
  shows "startWorkers engineOk scheds wcount n s
     = Some (s\<lparr> threads := threads s @ [n..wcount - 1],
               infoLog := infoLog s @ [''started''] \<rparr>)"
  using all
proof (induction "nat (wcount - n)" arbitrary: n s)
  case 0
  then have "\<not> n < wcount" by simp
  then show ?case by (subst startWorkers.simps) simp
next
  case (Suc d)
  then have lt: "n < wcount" by simp
  then have okn: "engineOk n" using Suc.prems by simp
  have "EngineThread_start (engineOk n) (scheds n) \<noteq> None"
    using complete by blast
  from EngineThread_start_complete [OF this]
  have st: "EngineThread_start (engineOk n) (scheds n) = Some True"
    using okn by simp
  have d: "d = nat (wcount - (n + 1))" using Suc.hyps(2) by simp
  have b: "\<forall>i. n + 1 \<le> i \<and> i < wcount \<longrightarrow> engineOk i" using Suc.prems(1) by simp
  have u: "[n..wcount - 1] = n # [n + 1..wcount - 1]"
    using lt by (simp add: upto_rec1)
  have "startWorkers engineOk scheds wcount n s
      = startWorkers engineOk scheds wcount (n + 1) (s\<lparr> threads := threads s @ [n] \<rparr>)"
    using lt by (subst startWorkers.simps) (simp add: st)
  also have "\<dots> = Some ((s\<lparr> threads := threads s @ [n] \<rparr>)
       \<lparr> threads := threads (s\<lparr> threads := threads s @ [n] \<rparr>) @ [n + 1..wcount - 1],
         infoLog := infoLog (s\<lparr> threads := threads s @ [n] \<rparr>) @ [''started''] \<rparr>)"
    by (rule Suc.hyps(1) [OF d b])
  finally show ?case by (simp add: u)
qed

text \<open>
  C1. Under every schedule of the supervisor's and the worker's steps:
  \<^verbatim>\<open>EngineThread::start\<close>, when it returns, returns whether the worker's engine
  started; as long as the worker has emitted neither \<^verbatim>\<open>started\<close> nor \<^verbatim>\<open>error\<close>,
  \<^verbatim>\<open>start\<close> has not returned and the supervisor has not come past the wait on the
  condition; and \<^verbatim>\<open>start\<close> does return once each thread is given eleven more
  steps. In the loop of \<^verbatim>\<open>runLoop\<close>, when every call of \<^verbatim>\<open>start\<close> returns and
  worker \<open>k\<close> is the first whose engine fails to start, the supervisor deletes the
  failed thread and the threads of the workers \<open>0\<close> to \<open>k - 1\<close> started
  before, leaves the list of threads empty and exits with code 1; when every engine
  starts, all workers are kept and no exit is requested.
\<close>

theorem worker_startup_barrier:
  "(\<forall>b. EngineThread_start ok sched = Some b \<longrightarrow> b = ok)
   \<and> (signalled (run_schedule ok sched start_init) = None \<longrightarrow>
        EngineThread_start ok sched = None
        \<and> sup (run_schedule ok sched start_init) \<in> {SupLock, SupSpawn, SupWait, SupBlocked})
   \<and> EngineThread_start ok (sched @ round_robin 11) = Some ok
   \<and> ((\<forall>i. EngineThread_start (engineOk i) (scheds i) \<noteq> None)
        \<and> 0 \<le> k \<and> k < wcount \<and> \<not> engineOk k \<and> (\<forall>i. 0 \<le> i \<and> i < k \<longrightarrow> engineOk i) \<longrightarrow>
        startWorkers engineOk scheds wcount 0 supervisor_init
          = Some (supervisor_init\<lparr> deletedThreads := k # [0..k - 1], threads := [],
                                   exitCode := Some 1 \<rparr>))
   \<and> ((\<forall>i. EngineThread_start (engineOk i) (scheds i) \<noteq> None)
        \<and> (\<forall>i. 0 \<le> i \<and> i < wcount \<longrightarrow> engineOk i) \<longrightarrow>
        startWorkers engineOk scheds wcount 0 supervisor_init
          = Some (supervisor_init\<lparr> threads := [0..wcount - 1], infoLog := [''started''] \<rparr>))"
proof (intro conjI allI impI)
  fix b assume "EngineThread_start ok sched = Some b"
  then show "b = ok" by (rule EngineThread_start_Some)
next
  assume u: "signalled (run_schedule ok sched start_init) = None"
  from EngineThread_start_blocked [OF u]
  show "EngineThread_start ok sched = None" by simp
  from EngineThread_start_blocked [OF u]
  show "sup (run_schedule ok sched start_init) \<in> {SupLock, SupSpawn, SupWait, SupBlocked}"
    by simp
next
  show "EngineThread_start ok (sched @ round_robin 11) = Some ok"
    by (rule EngineThread_start_returns)
next
  assume h: "(\<forall>i. EngineThread_start (engineOk i) (scheds i) \<noteq> None)
        \<and> 0 \<le> k \<and> k < wcount \<and> \<not> engineOk k \<and> (\<forall>i. 0 \<le> i \<and> i < k \<longrightarrow> engineOk i)"
  then have "startWorkers engineOk scheds wcount 0 supervisor_init
     = Some (supervisor_init\<lparr> deletedThreads := deletedThreads supervisor_init @ [k]
               @ threads supervisor_init @ [0..k - 1],
               threads := [], exitCode := Some 1 \<rparr>)"
    by (intro startWorkers_failure) simp_all
  then show "startWorkers engineOk scheds wcount 0 supervisor_init
          = Some (supervisor_init\<lparr> deletedThreads := k # [0..k - 1], threads := [],
                                   exitCode := Some 1 \<rparr>)"
    by (simp add: supervisor_init_def)
next
  assume h: "(\<forall>i. EngineThread_start (engineOk i) (scheds i) \<noteq> None)
        \<and> (\<forall>i. 0 \<le> i \<and> i < wcount \<longrightarrow> engineOk i)"
  then have "startWorkers engineOk scheds wcount 0 supervisor_init
     = Some (supervisor_init\<lparr> threads := threads supervisor_init @ [0..wcount - 1],
               infoLog := infoLog supervisor_init @ [''started''] \<rparr>)"
    by (intro startWorkers_success) simp_all
  then show "startWorkers engineOk scheds wcount 0 supervisor_init
          = Some (supervisor_init\<lparr> threads := [0..wcount - 1], infoLog := [''started''] \<rparr>)"
    by (simp add: supervisor_init_def)
qed

lemma upto_0_1: "[0..(1::int)] = [0, 1]" "[0..(3::int)] = [0, 1, 2, 3]"
  by (simp_all add: upto_rec1)

theorem worker_startup_barrier_witness:
  "EngineThread_start True ([] @ round_robin 11) = Some True
   \<and> EngineThread_start False ([] @ round_robin 11) = Some False
   \<and> signalled (run_schedule True [Supervisor, Supervisor, Supervisor, Worker, Worker] start_init) = None
   \<and> EngineThread_start True [Supervisor, Supervisor, Supervisor, Worker, Worker] = None
   \<and> startWorkers (\<lambda>n. n \<noteq> 2) (\<lambda>n. [] @ round_robin 11) 4 0 supervisor_init
       = Some (supervisor_init\<lparr> deletedThreads := [2, 0, 1], threads := [], exitCode := Some 1 \<rparr>)
   \<and> startWorkers (\<lambda>n. True) (\<lambda>n. [] @ round_robin 11) 4 0 supervisor_init
       = Some (supervisor_init\<lparr> threads := [0, 1, 2, 3], infoLog := [''started''] \<rparr>)"
proof -
  let ?sched = "[Supervisor, Supervisor, Supervisor, Worker, Worker]"
  let ?rr = "\<lambda>n::int. [] @ round_robin 11"
  have t: "EngineThread_start True ([] @ round_robin 11) = Some True"
    and f: "EngineThread_start False ([] @ round_robin 11) = Some False"
    using worker_startup_barrier [of True "[]"] worker_startup_barrier [of False "[]"]
    by blast+
  have u: "signalled (run_schedule True ?sched start_init) = None"
    by (simp add: run_schedule_def step_def sup_step_def wrk_step_def start_init_def)
  have n: "EngineThread_start True ?sched = None"
    using worker_startup_barrier [of True ?sched] u by blast
  have c1: "\<forall>i. EngineThread_start (i \<noteq> (2::int)) (?rr i) \<noteq> None"
    using t f by (metis option.distinct(1))
  have c2: "\<forall>i::int. EngineThread_start True (?rr i) \<noteq> None"
    using t by simp
  have a: "startWorkers (\<lambda>n. n \<noteq> 2) ?rr 4 0 supervisor_init
       = Some (supervisor_init\<lparr> deletedThreads := 2 # [0..2 - 1], threads := [], exitCode := Some 1 \<rparr>)"
    using worker_startup_barrier [of True "[]" "\<lambda>n. n \<noteq> 2" ?rr 2 4,
        THEN conjunct2, THEN conjunct2, THEN conjunct2, THEN conjunct1] c1
    by simp
  have b: "startWorkers (\<lambda>n. True) ?rr 4 0 supervisor_init
       = Some (supervisor_init\<lparr> threads := [0..4 - 1], infoLog := [''started''] \<rparr>)"
    using worker_startup_barrier [of True "[]" "\<lambda>n. True" ?rr 0 4,
        THEN conjunct2, THEN conjunct2, THEN conjunct2, THEN conjunct2] c2
    by simp
  from t f u n a b show ?thesis by (simp add: upto_0_1)
qed

subsection \<open>SIGHUP\<close>

lemma hup_handler_funpow:
  "exitCode ((hup_handler ^^ k) s) = exitCode s
   \<and> threads ((hup_handler ^^ k) s) = threads s
   \<and> deletedThreads ((hup_handler ^^ k) s) = deletedThreads s
   \<and> stopRequests ((hup_handler ^^ k) s) = stopRequests s
   \<and> processQuitCleanedUp ((hup_handler ^^ k) s) = processQuitCleanedUp s
   \<and> logRotations ((hup_handler ^^ k) s) = logRotations s + k
   \<and> domainMapReloads ((hup_handler ^^ k) s) = domainMapReloads s + k"
  by (induction k) (simp_all add: hup_handler_def)

text \<open>
  C6. The handler of \<^verbatim>\<open>hup\<close> rotates the log file once and reloads the domain map
  once, and changes neither the exit code nor the list of threads, nor does it delete
  or stop a thread or remove the signal handlers; after any number of SIGHUPs the
  process started by \<^verbatim>\<open>runLoop\<close> has no exit code set.
\<close>

theorem hup_reloads_and_never_exits:
  "logRotations (hup_handler s) = Suc (logRotations s)
   \<and> domainMapReloads (hup_handler s) = Suc (domainMapReloads s)
   \<and> exitCode (hup_handler s) = exitCode s
   \<and> threads (hup_handler s) = threads s
   \<and> deletedThreads (hup_handler s) = deletedThreads s
   \<and> stopRequests (hup_handler s) = stopRequests s
   \<and> processQuitCleanedUp (hup_handler s) = processQuitCleanedUp s
   \<and> exitCode ((hup_handler ^^ k) supervisor_init) = None
   \<and> logRotations ((hup_handler ^^ k) supervisor_init) = k
   \<and> domainMapReloads ((hup_handler ^^ k) supervisor_init) = k"
  using hup_handler_funpow [of k supervisor_init]
  by (simp add: hup_handler_def supervisor_init_def)

subsection \<open>The conncheck request\<close>

lemma foldl_vcids:
  "foldl (\<lambda>vcids cid. vcids @ [VByteArray (f cid)]) acc cids = acc @ map (\<lambda>cid. VByteArray (f cid)) cids"
  by (induction cids arbitrary: acc) simp_all

lemma byteArraysOf_map: "byteArraysOf (map (\<lambda>cid. VByteArray (f cid)) cids) = map f cids"
  by (induction cids) simp_all

lemma collect_cids_all:
  "list_all isByteArray res \<Longrightarrow>
     collect_cids f res out = Some (out \<union> f ` set (byteArraysOf res))"
proof (induction res arbitrary: out)
  case Nil
  then show ?case by simp
next
  case (Cons v res)
  then show ?case by (cases v) auto
qed

lemma collect_cids_some:
  "\<not> list_all isByteArray res \<Longrightarrow> collect_cids f res out = None"
proof (induction res arbitrary: out)
  case Nil
  then show ?case by simp
next
  case (Cons v res)
  then show ?case by (cases v) auto
qed

text \<open>
  C7. The request is started with method \<open>conncheck\<close> and the single argument
  \<open>ids\<close>, the list of the client ids as byte arrays. On a successful reply whose
  result is a list of byte arrays, the call finishes successfully with the set of the
  ids in the list; on a successful reply whose result is not a list, or is a list with
  an element that is not a byte array, the call finishes as failed with no value; on an
  unsuccessful reply it finishes as failed with the error condition of the request.
\<close>

theorem conncheck_request_and_reply:
  "ConnCheck_start toUtf8 cids = (''conncheck'', [(''ids'', VList (map (\<lambda>cid. VByteArray (toUtf8 cid)) cids))])
   \<and> (success req \<and> result req = VList res \<and> list_all isByteArray res \<longrightarrow>
        req_finished fromUtf8 req = Finished True (CidSetValue (fromUtf8 ` set (byteArraysOf res))))
   \<and> (success req \<and> result req = VList res \<and> \<not> list_all isByteArray res \<longrightarrow>
        req_finished fromUtf8 req = Finished False NoValue)
   \<and> (success req \<and> \<not> isVariantList (result req) \<longrightarrow>
        req_finished fromUtf8 req = Finished False NoValue)
   \<and> (\<not> success req \<longrightarrow>
        req_finished fromUtf8 req = Finished False (ErrorValue (errorCondition req)))"
proof (intro conjI impI)
  show "ConnCheck_start toUtf8 cids = (''conncheck'', [(''ids'', VList (map (\<lambda>cid. VByteArray (toUtf8 cid)) cids))])"
    by (simp add: ConnCheck_start_def foldl_vcids)
next
  assume "success req \<and> result req = VList res \<and> list_all isByteArray res"
  then show "req_finished fromUtf8 req = Finished True (CidSetValue (fromUtf8 ` set (byteArraysOf res)))"
    by (simp add: req_finished_def collect_cids_all)
next
  assume "success req \<and> result req = VList res \<and> \<not> list_all isByteArray res"
  then show "req_finished fromUtf8 req = Finished False NoValue"
    by (simp add: req_finished_def collect_cids_some)
next
  assume "success req \<and> \<not> isVariantList (result req)"
  then show "req_finished fromUtf8 req = Finished False NoValue"
    by (cases "result req") (simp_all add: req_finished_def)
next
  assume "\<not> success req"
  then show "req_finished fromUtf8 req = Finished False (ErrorValue (errorCondition req))"
    by (simp add: req_finished_def)
qed

theorem conncheck_request_and_reply_witness:
  "req_finished (\<lambda>b. b) (reply True (VList [VByteArray ''a'', VByteArray ''b'', VByteArray ''a'']))
     = Finished True (CidSetValue {''a'', ''b''})
   \<and> req_finished (\<lambda>b. b) (reply True (VList [VByteArray ''a'', VInt 7])) = Finished False NoValue
   \<and> req_finished (\<lambda>b. b) (reply True (VString ''a'')) = Finished False NoValue
   \<and> req_finished (\<lambda>b. b) (reply False Invalid) = Finished False (ErrorValue 3)"
  using conncheck_request_and_reply [of "\<lambda>b. b" "[]" "reply True (VList [VByteArray ''a'', VByteArray ''b'', VByteArray ''a''])" "[VByteArray ''a'', VByteArray ''b'', VByteArray ''a'']" "\<lambda>b. b"]
    conncheck_request_and_reply [of "\<lambda>b. b" "[]" "reply True (VList [VByteArray ''a'', VInt 7])" "[VByteArray ''a'', VInt 7]" "\<lambda>b. b"]
    conncheck_request_and_reply [of "\<lambda>b. b" "[]" "reply True (VString ''a'')" "[]" "\<lambda>b. b"]
    conncheck_request_and_reply [of "\<lambda>b. b" "[]" "reply False Invalid" "[]" "\<lambda>b. b"]
  by (simp add: reply_def insert_commute)

subsection \<open>The size limit of the updater's response\<close>

text \<open>
  C8. With exactly \<^verbatim>\<open>MAX_RESPONSE_SIZE\<close> bytes available the response is not
  rejected as too large, and when it is finished with code 200 its body is read for
  processing; with \<^verbatim>\<open>MAX_RESPONSE_SIZE + 1\<close> bytes available the response is
  rejected as too large and the request is dropped.
\<close>

theorem response_size_boundary:
  "(bytesAvailable req = MAX_RESPONSE_SIZE \<longrightarrow>
      fst (req_readyRead req) \<noteq> ResponseTooLarge
      \<and> (isFinished req \<and> responseCode req = 200 \<longrightarrow>
           req_readyRead req = (BodyRead (responseBody req), None)))
   \<and> (bytesAvailable req = MAX_RESPONSE_SIZE + 1 \<longrightarrow>
      req_readyRead req = (ResponseTooLarge, None))"
  by (simp add: req_readyRead_def)

theorem response_size_boundary_witness:
  "bytesAvailable (response 50000) = MAX_RESPONSE_SIZE
   \<and> req_readyRead (response 50000) = (BodyRead (replicate 50000 CHR ''x''), None)
   \<and> bytesAvailable (response 50001) = MAX_RESPONSE_SIZE + 1
   \<and> req_readyRead (response 50001) = (ResponseTooLarge, None)"
  using response_size_boundary [of "response 50000"] response_size_boundary [of "response 50001"]
  by (simp add: response_def bytesAvailable_def MAX_RESPONSE_SIZE_def)

end
